theory Spec2Isabelle
  imports Complex_Main "HOL-Library.Monad_Syntax"
begin

section \<open>Data model of clean\_dataset.py\<close>

subsection \<open>Python floats\<close>

text \<open>
  The metrics are Python floats. A float is a NaN, an infinity or a finite dyadic
  rational; the finite ones are embedded in the reals, where the comparisons of the
  source (\<^verbatim>\<open>brightness < 35\<close>, a float against an int) are exact.
\<close>

datatype pyfloat = NaN | Fin real | PInf | NInf

text \<open>\<^verbatim>\<open>np.isnan(x)\<close>\<close>

fun isnan :: "pyfloat \<Rightarrow> bool" where
  "isnan NaN = True"
| "isnan (Fin x) = False"
| "isnan PInf = False"
| "isnan NInf = False"

text \<open>\<^verbatim>\<open>x < c\<close>, \<^verbatim>\<open>x > c\<close> and \<^verbatim>\<open>x >= c\<close> for a float \<open>x\<close> and a finite constant \<open>c\<close>:
  every comparison with a NaN is false.\<close>

fun flt :: "pyfloat \<Rightarrow> real \<Rightarrow> bool" where
  "flt NaN c = False"
| "flt (Fin x) c = (x < c)"
| "flt PInf c = False"
| "flt NInf c = True"

fun fgt :: "pyfloat \<Rightarrow> real \<Rightarrow> bool" where
  "fgt NaN c = False"
| "fgt (Fin x) c = (c < x)"
| "fgt PInf c = True"
| "fgt NInf c = False"

fun fge :: "pyfloat \<Rightarrow> real \<Rightarrow> bool" where
  "fge NaN c = False"
| "fge (Fin x) c = (c \<le> x)"
| "fge PInf c = True"
| "fge NInf c = False"

subsection \<open>Thresholds (module constants)\<close>

definition MIN_FRAME_WIDTH :: int where "MIN_FRAME_WIDTH = 640"
definition MIN_FRAME_HEIGHT :: int where "MIN_FRAME_HEIGHT = 360"
definition MIN_SHARPNESS_SCORE :: real where "MIN_SHARPNESS_SCORE = 50"
definition MIN_BRIGHTNESS :: real where "MIN_BRIGHTNESS = 35"
definition MAX_BRIGHTNESS :: real where "MAX_BRIGHTNESS = 190"
definition NUM_SAMPLED_FRAMES :: int where "NUM_SAMPLED_FRAMES = 20"
definition FRAME_STRIDE :: int where "FRAME_STRIDE = 15"

text \<open>The float literals \<^verbatim>\<open>0.01\<close> and \<^verbatim>\<open>0.3\<close>, as the doubles they denote.\<close>

definition MOTION_MIN_PIXEL_CHANGE_RATIO :: real where
  "MOTION_MIN_PIXEL_CHANGE_RATIO = 5764607523034235 / 2 ^ 59"
definition MOTION_MIN_ACTIVE_FRAME_PCT :: real where
  "MOTION_MIN_ACTIVE_FRAME_PCT = 5404319552844595 / 2 ^ 54"

subsection \<open>The metrics dictionary and the stats dictionary\<close>

text \<open>
  \<^verbatim>\<open>analyze_video_quality\<close> returns either the empty dictionary (the decoder did not
  open) or one with all eleven keys; the evaluator reads it with
  \<^verbatim>\<open>metrics.get(key, default)\<close>. A field is \<open>None\<close> when the key is absent.
\<close>

record metrics =
  width :: "int option"
  height :: "int option"
  mean_brightness :: "pyfloat option"
  sharpness_score :: "pyfloat option"
  motion_flag :: "bool option"
  motion_detected :: "bool option"
  motion_pairs :: "int option"
  motion_active_pairs :: "int option"
  motion_active_frame_pct :: "pyfloat option"
  motion_mean_change_ratio :: "pyfloat option"
  motion_max_change_ratio :: "pyfloat option"

definition empty_metrics :: metrics where
  "empty_metrics = \<lparr>width = None, height = None, mean_brightness = None,
     sharpness_score = None, motion_flag = None, motion_detected = None,
     motion_pairs = None, motion_active_pairs = None, motion_active_frame_pct = None,
     motion_mean_change_ratio = None, motion_max_change_ratio = None\<rparr>"

text \<open>\<^verbatim>\<open>d.get(key, default)\<close>, on the looked-up field.\<close>

fun dict_get :: "'a option \<Rightarrow> 'a \<Rightarrow> 'a" where
  "dict_get None d = d"
| "dict_get (Some v) d = v"

text \<open>
  A stats dictionary is only ever built by \<^verbatim>\<open>default_stats\<close>, with a fixed set of ten
  keys, and updated in place by \<^verbatim>\<open>+=\<close> on those keys: a record. The counters are
  Python ints.
\<close>

record stats =
  Exercise :: string
  total_videos :: int
  accepted_videos :: int
  rejected_videos :: int
  corrupted_files :: int
  low_resolution :: int
  too_dark :: int
  too_bright :: int
  blurry :: int
  insufficient_motion :: int

definition default_stats :: "string \<Rightarrow> stats" where
  "default_stats exercise_name = \<lparr>Exercise = exercise_name, total_videos = 0,
     accepted_videos = 0, rejected_videos = 0, corrupted_files = 0, low_resolution = 0,
     too_dark = 0, too_bright = 0, blurry = 0, insufficient_motion = 0\<rparr>"

section \<open>The acceptance evaluator\<close>

text \<open>
  The state the checks of \<^verbatim>\<open>evaluate_video_acceptance\<close> thread: the local \<^verbatim>\<open>accepted\<close>,
  the local list \<^verbatim>\<open>reasons\<close> and the caller's \<^verbatim>\<open>stats\<close>, mutated in place.
\<close>

type_synonym verdict = "bool \<times> string list \<times> stats"

text \<open>\<^verbatim>\<open>if width < MIN_FRAME_WIDTH or height < MIN_FRAME_HEIGHT: ...\<close>\<close>

definition check_resolution :: "int \<Rightarrow> int \<Rightarrow> verdict \<Rightarrow> verdict" where
  "check_resolution w h v = (case v of (accepted, reasons, st) \<Rightarrow>
     if w < MIN_FRAME_WIDTH \<or> h < MIN_FRAME_HEIGHT
     then (False, reasons @ [''low_resolution''],
           st\<lparr>low_resolution := low_resolution st + 1\<rparr>)
     else (accepted, reasons, st))"

text \<open>\<^verbatim>\<open>if brightness < MIN_BRIGHTNESS: ... elif brightness > MAX_BRIGHTNESS: ...\<close>\<close>

definition check_brightness :: "pyfloat \<Rightarrow> verdict \<Rightarrow> verdict" where
  "check_brightness brightness v = (case v of (accepted, reasons, st) \<Rightarrow>
     if flt brightness MIN_BRIGHTNESS
     then (False, reasons @ [''too_dark''], st\<lparr>too_dark := too_dark st + 1\<rparr>)
     else if fgt brightness MAX_BRIGHTNESS
     then (False, reasons @ [''too_bright''], st\<lparr>too_bright := too_bright st + 1\<rparr>)
     else (accepted, reasons, st))"

text \<open>\<^verbatim>\<open>if sharpness < MIN_SHARPNESS_SCORE: ...\<close>\<close>

definition check_sharpness :: "pyfloat \<Rightarrow> verdict \<Rightarrow> verdict" where
  "check_sharpness sharpness v = (case v of (accepted, reasons, st) \<Rightarrow>
     if flt sharpness MIN_SHARPNESS_SCORE
     then (False, reasons @ [''blurry''], st\<lparr>blurry := blurry st + 1\<rparr>)
     else (accepted, reasons, st))"

text \<open>\<^verbatim>\<open>if (not motion_detected) and motion_flag: ...\<close>\<close>

definition check_motion :: "bool \<Rightarrow> bool \<Rightarrow> verdict \<Rightarrow> verdict" where
  "check_motion detected flag v = (case v of (accepted, reasons, st) \<Rightarrow>
     if \<not> detected \<and> flag
     then (False, reasons @ [''insufficient_motion''],
           st\<lparr>insufficient_motion := insufficient_motion st + 1\<rparr>)
     else (accepted, reasons, st))"

text \<open>
  \<^verbatim>\<open>evaluate_video_acceptance(metrics, issues, stats)\<close>: returns \<^verbatim>\<open>(accepted, reasons)\<close>
  and, as the third component here, the stats dictionary as the call leaves it.
\<close>

definition evaluate_video_acceptance :: "metrics \<Rightarrow> string list \<Rightarrow> stats \<Rightarrow> verdict" where
  "evaluate_video_acceptance m issues st =
    (let w = dict_get (width m) 0;
         h = dict_get (height m) 0;
         brightness = dict_get (mean_brightness m) NaN;
         sharpness = dict_get (sharpness_score m) NaN;
         detected = dict_get (motion_detected m) False;
         flag = dict_get (motion_flag m) False
     in if ''corrupted_file'' \<in> set issues \<or> isnan brightness \<or> isnan sharpness
        then (False, [''corrupted_file''], st\<lparr>corrupted_files := corrupted_files st + 1\<rparr>)
        else check_motion detected flag
              (check_sharpness sharpness
                (check_brightness brightness
                  (check_resolution w h (True, [], st)))))"

text \<open>The two results of the call, and the stats it leaves.\<close>

definition accepted_of :: "verdict \<Rightarrow> bool" where
  "accepted_of v = fst v"

definition reasons_of :: "verdict \<Rightarrow> string list" where
  "reasons_of v = fst (snd v)"

definition stats_of :: "verdict \<Rightarrow> stats" where
  "stats_of v = snd (snd v)"

section \<open>The decoder and the image primitives\<close>

text \<open>
  What \<^verbatim>\<open>cv2.VideoCapture(str(video_path))\<close> finds at a path: whether the decoder opens,
  the three properties the analysis reads (already through \<^verbatim>\<open>int(cap.get(...))\<close>), and
  the outcome of \<^verbatim>\<open>cap.set(cv2.CAP_PROP_POS_FRAMES, i); cap.read()\<close> at each index \<open>i\<close>:
  \<open>None\<close> when \<^verbatim>\<open>ret\<close> is false, the frame otherwise. The reported frame count is
  unrelated to the indices that decode.
\<close>

record 'f video =
  opens :: bool
  frame_width :: int
  frame_height :: int
  frame_count :: int
  read_frame :: "int \<Rightarrow> 'f option"

text \<open>
  The handle \<^verbatim>\<open>cap\<close>: whether it holds an open decoder, and the calls made on it that
  position, read or release (one \<open>Seek i\<close> for each \<^verbatim>\<open>cap.set(..., i); cap.read()\<close>).
\<close>

datatype cap_call = Seek int | Release

record cap_state =
  cap_opened :: bool
  cap_log :: "cap_call list"

definition VideoCapture :: "'f video \<Rightarrow> cap_state" where
  "VideoCapture v = \<lparr>cap_opened = opens v, cap_log = []\<rparr>"

definition cap_read_at :: "'f video \<Rightarrow> int \<Rightarrow> cap_state \<Rightarrow> 'f option \<times> cap_state" where
  "cap_read_at v i c = (read_frame v i, c\<lparr>cap_log := cap_log c @ [Seek i]\<rparr>)"

definition cap_release :: "cap_state \<Rightarrow> cap_state" where
  "cap_release c = c\<lparr>cap_opened := False, cap_log := cap_log c @ [Release]\<rparr>"

fun seek_indices :: "cap_call list \<Rightarrow> int list" where
  "seek_indices [] = []"
| "seek_indices (Seek i # cs) = i # seek_indices cs"
| "seek_indices (Release # cs) = seek_indices cs"

text \<open>
  The numeric primitives of OpenCV and NumPy are parameters of the model: they are
  floating-point computations on pixel arrays, and no property below depends on what they
  return.
  \<^item> \<open>gray_mean frame\<close> is \<^verbatim>\<open>float(cv2.cvtColor(frame, cv2.COLOR_BGR2GRAY).mean())\<close>;
  \<^item> \<open>lap_var frame\<close> is \<^verbatim>\<open>float(cv2.Laplacian(gray, cv2.CV_64F).var())\<close>;
  \<^item> \<open>gray_blur frame\<close> is \<^verbatim>\<open>cv2.GaussianBlur(gray, (5, 5), 0)\<close>;
  \<^item> \<open>change_ratio a b\<close> is the share of pixels of \<^verbatim>\<open>cv2.absdiff(a, b)\<close> above
    \<^verbatim>\<open>MOTION_DIFF_THRESHOLD\<close>;
  \<^item> \<open>np_mean\<close> and \<open>np_max\<close> are \<^verbatim>\<open>np.mean\<close> and \<^verbatim>\<open>np.max\<close> on a non-empty list of floats;
  \<^item> \<open>true_div a b\<close> is the float \<^verbatim>\<open>a / b\<close> of two ints, \<open>b\<close> positive.
\<close>

record 'f cv_ops =
  gray_mean :: "'f \<Rightarrow> pyfloat"
  lap_var :: "'f \<Rightarrow> pyfloat"
  gray_blur :: "'f \<Rightarrow> 'f"
  change_ratio :: "'f \<Rightarrow> 'f \<Rightarrow> pyfloat"
  np_mean :: "pyfloat list \<Rightarrow> pyfloat"
  np_max :: "pyfloat list \<Rightarrow> pyfloat"
  true_div :: "int \<Rightarrow> int \<Rightarrow> pyfloat"

section \<open>The frame sampler and metric extractor\<close>

text \<open>The local variables of \<^verbatim>\<open>analyze_video_quality\<close> that the sampling loop updates
  (\<open>pairs_count\<close> is the local \<^verbatim>\<open>motion_pairs\<close>), and the handle.\<close>

record 'f sampling =
  frame_index :: int
  samples_collected :: int
  sampled_brightness :: "pyfloat list"
  sampled_sharpness :: "pyfloat list"
  prev_gray_for_motion :: "'f option"
  active_count :: int
  pairs_count :: int
  change_ratios :: "pyfloat list"
  cap :: cap_state

definition initial_sampling :: "cap_state \<Rightarrow> 'f sampling" where
  "initial_sampling c = \<lparr>frame_index = 0, samples_collected = 0, sampled_brightness = [],
     sampled_sharpness = [], prev_gray_for_motion = None, active_count = 0,
     pairs_count = 0, change_ratios = [], cap = c\<rparr>"

text \<open>The block under \<^verbatim>\<open>if motion_flag:\<close> in the loop body.\<close>

definition motion_update :: "'f cv_ops \<Rightarrow> 'f \<Rightarrow> 'f sampling \<Rightarrow> 'f sampling" where
  "motion_update ops frame s =
    (let blurred = gray_blur ops frame;
         s' = (case prev_gray_for_motion s of
                 None \<Rightarrow> s
               | Some prev \<Rightarrow>
                   let ratio = change_ratio ops blurred prev
                   in s\<lparr>change_ratios := change_ratios s @ [ratio],
                        pairs_count := pairs_count s + 1,
                        active_count :=
                          (if fge ratio MOTION_MIN_PIXEL_CHANGE_RATIO
                           then active_count s + 1 else active_count s)\<rparr>)
     in s'\<lparr>prev_gray_for_motion := Some blurred\<rparr>)"

text \<open>One pass through the body of the \<^verbatim>\<open>while\<close> loop.\<close>

definition sample_step ::
  "'f cv_ops \<Rightarrow> 'f video \<Rightarrow> bool \<Rightarrow> int \<Rightarrow> 'f sampling \<Rightarrow> 'f sampling" where
  "sample_step ops v mflag frame_stride s =
    (case cap_read_at v (frame_index s) (cap s) of (r, c) \<Rightarrow>
      (case r of
         None \<Rightarrow> s\<lparr>frame_index := frame_index s + frame_stride, cap := c\<rparr>
       | Some frame \<Rightarrow>
           let s1 = s\<lparr>sampled_brightness := sampled_brightness s @ [gray_mean ops frame],
                       sampled_sharpness := sampled_sharpness s @ [lap_var ops frame],
                       cap := c\<rparr>;
               s2 = (if mflag then motion_update ops frame s1 else s1)
           in s2\<lparr>samples_collected := samples_collected s2 + 1,
                 frame_index := frame_index s2 + frame_stride\<rparr>))"

text \<open>\<^verbatim>\<open>samples_collected < num_frames and
  frame_index < max(frame_count, num_frames * frame_stride + 1)\<close>\<close>

definition sample_cond :: "'f video \<Rightarrow> int \<Rightarrow> int \<Rightarrow> 'f sampling \<Rightarrow> bool" where
  "sample_cond v num_frames frame_stride s \<longleftrightarrow>
     samples_collected s < num_frames
     \<and> frame_index s < max (frame_count v) (num_frames * frame_stride + 1)"

text \<open>The \<^verbatim>\<open>while\<close> loop. With a stride below 1 it need not end: \<open>None\<close> is the run that
  never leaves the loop.\<close>

partial_function (option) sample_loop ::
  "'f cv_ops \<Rightarrow> 'f video \<Rightarrow> bool \<Rightarrow> int \<Rightarrow> int \<Rightarrow> 'f sampling \<Rightarrow> 'f sampling option" where
  "sample_loop ops v mflag num_frames frame_stride s =
     (if sample_cond v num_frames frame_stride s
      then sample_loop ops v mflag num_frames frame_stride
             (sample_step ops v mflag frame_stride s)
      else Some s)"

declare sample_loop.simps [code]

text \<open>The metrics dictionary built after the loop (lines 120 to 143).\<close>

definition build_metrics :: "'f cv_ops \<Rightarrow> 'f video \<Rightarrow> bool \<Rightarrow> 'f sampling \<Rightarrow> metrics" where
  "build_metrics ops v mflag s =
    (let has_pairs = mflag \<and> pairs_count s > 0;
         pct = (if has_pairs then true_div ops (active_count s) (pairs_count s) else NaN);
         mean_ratio = (if has_pairs \<and> change_ratios s \<noteq> []
                       then np_mean ops (change_ratios s) else NaN);
         max_ratio = (if has_pairs \<and> change_ratios s \<noteq> []
                      then np_max ops (change_ratios s) else NaN);
         detected = (if has_pairs then fge pct MOTION_MIN_ACTIVE_FRAME_PCT else False)
     in \<lparr>width = Some (frame_width v),
         height = Some (frame_height v),
         mean_brightness = Some (if sampled_brightness s \<noteq> []
                                 then np_mean ops (sampled_brightness s) else NaN),
         sharpness_score = Some (if sampled_sharpness s \<noteq> []
                                 then np_mean ops (sampled_sharpness s) else NaN),
         motion_flag = Some mflag,
         motion_detected = Some detected,
         motion_pairs = Some (if mflag then pairs_count s else 0),
         motion_active_pairs = Some (if mflag then active_count s else 0),
         motion_active_frame_pct = Some pct,
         motion_mean_change_ratio = Some mean_ratio,
         motion_max_change_ratio = Some max_ratio\<rparr>)"

text \<open>
  \<^verbatim>\<open>analyze_video_quality(video_path, num_frames, frame_stride, exercise_name)\<close>, with
  the module's \<^verbatim>\<open>MOTION_FLAGS\<close> and the video found at the path as arguments. Besides
  \<^verbatim>\<open>(metrics, issues)\<close> the model returns the handle as the function leaves it.
\<close>

definition analyze_video_quality ::
  "'f cv_ops \<Rightarrow> (string \<rightharpoonup> bool) \<Rightarrow> 'f video \<Rightarrow> int \<Rightarrow> int \<Rightarrow> string
     \<Rightarrow> ((metrics \<times> string list) \<times> cap_state) option" where
  "analyze_video_quality ops MOTION_FLAGS v num_frames frame_stride exercise_name =
    (let cap0 = VideoCapture v
     in if \<not> cap_opened cap0
        then Some ((empty_metrics, [''corrupted_file'']), cap0)
        else
          (let mflag = dict_get (MOTION_FLAGS exercise_name) False
           in do {
                s \<leftarrow> sample_loop ops v mflag num_frames frame_stride (initial_sampling cap0);
                let c = cap_release (cap s);
                let issues = (if samples_collected s = 0 then [''corrupted_file''] else []);
                Some ((build_metrics ops v mflag s, issues), c)
              }))"

section \<open>The cleaning loop and the report\<close>

text \<open>
  \<^verbatim>\<open>file.lower().endswith((".mp4", ".avi", ".mov"))\<close>. File names are strings of 8-bit
  characters here; \<open>lower_char\<close> lowers the letters A to Z, the only ones whose lower case
  can occur in one of the three suffixes.
\<close>

definition lower_char :: "char \<Rightarrow> char" where
  "lower_char c = (let n = (of_char c :: nat)
                   in if 65 \<le> n \<and> n \<le> 90 then char_of (n + 32) else c)"

definition endswith :: "string \<Rightarrow> string \<Rightarrow> bool" where
  "endswith s suffix \<longleftrightarrow>
     length suffix \<le> length s \<and> drop (length s - length suffix) s = suffix"

definition is_video_file :: "string \<Rightarrow> bool" where
  "is_video_file file =
    (let l = map lower_char file
     in endswith l ''.mp4'' \<or> endswith l ''.avi'' \<or> endswith l ''.mov'')"

text \<open>
  One pass through the body of \<^verbatim>\<open>for file in files\<close> (lines 306 to 341), on the pair of
  the locals \<^verbatim>\<open>exercise_stats\<close> and \<^verbatim>\<open>any_video\<close>. A file is its name and the video the
  decoder finds at its path. The entry appended to \<^verbatim>\<open>VIDEO_LOG\<close>, the copy of an accepted
  file and the progress bar neither read nor write the counters and are left out.
\<close>

definition process_file ::
  "'f cv_ops \<Rightarrow> (string \<rightharpoonup> bool) \<Rightarrow> string \<Rightarrow> stats \<times> bool \<Rightarrow> string \<times> 'f video
     \<Rightarrow> (stats \<times> bool) option" where
  "process_file ops MOTION_FLAGS folder_name acc fv =
    (case acc of (exercise_stats, any_video) \<Rightarrow>
     case fv of (file, v) \<Rightarrow>
       if \<not> is_video_file file then Some (exercise_stats, any_video)
       else
         (let st1 = exercise_stats\<lparr>total_videos := total_videos exercise_stats + 1\<rparr>
          in do {
               r \<leftarrow> analyze_video_quality ops MOTION_FLAGS v NUM_SAMPLED_FRAMES FRAME_STRIDE
                      folder_name;
               let e = evaluate_video_acceptance (fst (fst r)) (snd (fst r)) st1;
               let st2 = stats_of e;
               Some (if accepted_of e
                     then st2\<lparr>accepted_videos := accepted_videos st2 + 1\<rparr>
                     else st2\<lparr>rejected_videos := rejected_videos st2 + 1\<rparr>, True)
             }))"

text \<open>The loop \<^verbatim>\<open>for file in files\<close>.\<close>

fun process_files ::
  "'f cv_ops \<Rightarrow> (string \<rightharpoonup> bool) \<Rightarrow> string \<Rightarrow> stats \<times> bool \<Rightarrow> (string \<times> 'f video) list
     \<Rightarrow> (stats \<times> bool) option" where
  "process_files ops MOTION_FLAGS folder_name acc [] = Some acc"
| "process_files ops MOTION_FLAGS folder_name acc (fv # files) =
     do {
       acc' \<leftarrow> process_file ops MOTION_FLAGS folder_name acc fv;
       process_files ops MOTION_FLAGS folder_name acc' files
     }"

text \<open>\<^verbatim>\<open>for key in totals: if key != "Exercise": totals[key] += exercise_stats[key]\<close>\<close>

definition add_to_totals :: "stats \<Rightarrow> stats \<Rightarrow> stats" where
  "add_to_totals totals exercise_stats =
     totals\<lparr>total_videos := total_videos totals + total_videos exercise_stats,
            accepted_videos := accepted_videos totals + accepted_videos exercise_stats,
            rejected_videos := rejected_videos totals + rejected_videos exercise_stats,
            corrupted_files := corrupted_files totals + corrupted_files exercise_stats,
            low_resolution := low_resolution totals + low_resolution exercise_stats,
            too_dark := too_dark totals + too_dark exercise_stats,
            too_bright := too_bright totals + too_bright exercise_stats,
            blurry := blurry totals + blurry exercise_stats,
            insufficient_motion := insufficient_motion totals + insufficient_motion exercise_stats\<rparr>"

text \<open>
  One pass through the body of \<^verbatim>\<open>for root, _, files in os.walk(source_root)\<close>, on the pair
  of the locals \<^verbatim>\<open>overall_exercise_stats\<close> and \<^verbatim>\<open>totals\<close>. A directory of the walk is
  the name of its last path component and its files.
\<close>

definition process_dir ::
  "'f cv_ops \<Rightarrow> (string \<rightharpoonup> bool) \<Rightarrow> stats list \<times> stats
     \<Rightarrow> string \<times> (string \<times> 'f video) list \<Rightarrow> (stats list \<times> stats) option" where
  "process_dir ops MOTION_FLAGS acc d =
    (case acc of (overall_exercise_stats, totals) \<Rightarrow>
     case d of (folder_name, files) \<Rightarrow>
       if length files = 0 then Some (overall_exercise_stats, totals)
       else do {
         r \<leftarrow> process_files ops MOTION_FLAGS folder_name (default_stats folder_name, False) files;
         Some (if snd r
               then (overall_exercise_stats @ [fst r], add_to_totals totals (fst r))
               else (overall_exercise_stats, totals))
       })"

fun process_dirs ::
  "'f cv_ops \<Rightarrow> (string \<rightharpoonup> bool) \<Rightarrow> stats list \<times> stats
     \<Rightarrow> (string \<times> (string \<times> 'f video) list) list \<Rightarrow> (stats list \<times> stats) option" where
  "process_dirs ops MOTION_FLAGS acc [] = Some acc"
| "process_dirs ops MOTION_FLAGS acc (d # ds) =
     do {
       acc' \<leftarrow> process_dir ops MOTION_FLAGS acc d;
       process_dirs ops MOTION_FLAGS acc' ds
     }"

text \<open>
  \<^verbatim>\<open>df[column].sum()\<close>. The data frame is built from the stats dictionaries, so a column of
  counters that all fit a signed 64-bit integer is an \<^verbatim>\<open>int64\<close> column, and its sum is
  computed in 64-bit two's complement: it wraps around. (A column with a counter outside
  that range has another type; every statement below about the report excludes it.)
\<close>

definition int64_wrap :: "int \<Rightarrow> int" where
  "int64_wrap x = (x + 2 ^ 63) mod 2 ^ 64 - 2 ^ 63"

definition column_sum :: "int list \<Rightarrow> int" where
  "column_sum xs = int64_wrap (sum_list xs)"

text \<open>
  The data frame \<^verbatim>\<open>generate_cleaning_report\<close> prints and saves: the rows it was given
  followed by the \<^verbatim>\<open>TOTAL\<close> row of the column sums; \<open>None\<close> when it returns early on an
  empty list.
\<close>

definition total_row :: "stats list \<Rightarrow> stats" where
  "total_row df = \<lparr>Exercise = ''TOTAL'',
     total_videos = column_sum (map total_videos df),
     accepted_videos = column_sum (map accepted_videos df),
     rejected_videos = column_sum (map rejected_videos df),
     corrupted_files = column_sum (map corrupted_files df),
     low_resolution = column_sum (map low_resolution df),
     too_dark = column_sum (map too_dark df),
     too_bright = column_sum (map too_bright df),
     blurry = column_sum (map blurry df),
     insufficient_motion = column_sum (map insufficient_motion df)\<rparr>"

definition generate_cleaning_report :: "stats list \<Rightarrow> stats \<Rightarrow> stats list option" where
  "generate_cleaning_report overall_exercise_stats totals =
    (if overall_exercise_stats = [] then None
     else Some (overall_exercise_stats @ [total_row overall_exercise_stats]))"

text \<open>
  \<^verbatim>\<open>clean_dataset\<close>: the walk, then the report. The result is the final
  \<^verbatim>\<open>overall_exercise_stats\<close> and \<^verbatim>\<open>totals\<close> and the data frame of the report.
\<close>

definition clean_dataset ::
  "'f cv_ops \<Rightarrow> (string \<rightharpoonup> bool) \<Rightarrow> (string \<times> (string \<times> 'f video) list) list
     \<Rightarrow> (stats list \<times> stats \<times> stats list option) option" where
  "clean_dataset ops MOTION_FLAGS walk =
     do {
       r \<leftarrow> process_dirs ops MOTION_FLAGS ([], default_stats ''ALL_EXERCISES'') walk;
       Some (fst r, snd r, generate_cleaning_report (fst r) (snd r))
     }"

section \<open>Predicates of the statements and invariants\<close>

text \<open>
  For the sampling loop: whether an index decodes, the first \<open>k\<close> candidate indices
  \<open>0, S, 2 S, \<dots>\<close>, the safety bound of the loop condition, and the invariant of the loop
  after \<open>k\<close> passes: the index stands at \<open>k S\<close>, the decoder was positioned at exactly the
  first \<open>k\<close> candidates, the frames collected are those of them that decoded, at most \<open>N\<close>,
  and each pass was entered with its index below the bound and fewer than \<open>N\<close> frames.
\<close>

definition decoded :: "'f video \<Rightarrow> int \<Rightarrow> bool" where
  "decoded v i \<longleftrightarrow> read_frame v i \<noteq> None"

definition candidates :: "int \<Rightarrow> nat \<Rightarrow> int list" where
  "candidates S k = map (\<lambda>j. int j * S) [0..<k]"

definition sampling_bound :: "'f video \<Rightarrow> int \<Rightarrow> int \<Rightarrow> int" where
  "sampling_bound v N S = max (frame_count v) (N * S + 1)"

definition sampling_inv :: "'f video \<Rightarrow> int \<Rightarrow> int \<Rightarrow> nat \<Rightarrow> 'f sampling \<Rightarrow> bool" where
  "sampling_inv v N S k s \<longleftrightarrow>
     frame_index s = int k * S
     \<and> seek_indices (cap_log (cap s)) = candidates S k
     \<and> samples_collected s = int (length (filter (decoded v) (candidates S k)))
     \<and> samples_collected s \<le> N
     \<and> (\<forall>j<k. int j * S < sampling_bound v N S
              \<and> int (length (filter (decoded v) (candidates S j))) < N)"

text \<open>A run of the analysis returned, and \<^verbatim>\<open>cap.release()\<close> was called in it.\<close>

definition released_before_return :: "('a \<times> cap_state) option \<Rightarrow> bool" where
  "released_before_return r =
     (case r of None \<Rightarrow> False | Some (x, c) \<Rightarrow> Release \<in> set (cap_log c))"

text \<open>A stats record whose videos are all either accepted or rejected.\<close>

definition balanced :: "stats \<Rightarrow> bool" where
  "balanced st \<longleftrightarrow> total_videos st = accepted_videos st + rejected_videos st"

text \<open>A record that holds, in each of the nine counter fields, the sum of the field over
  a list of rows.\<close>

definition sums_match :: "stats list \<Rightarrow> stats \<Rightarrow> bool" where
  "sums_match rows totals \<longleftrightarrow>
     total_videos totals = sum_list (map total_videos rows)
     \<and> accepted_videos totals = sum_list (map accepted_videos rows)
     \<and> rejected_videos totals = sum_list (map rejected_videos rows)
     \<and> corrupted_files totals = sum_list (map corrupted_files rows)
     \<and> low_resolution totals = sum_list (map low_resolution rows)
     \<and> too_dark totals = sum_list (map too_dark rows)
     \<and> too_bright totals = sum_list (map too_bright rows)
     \<and> blurry totals = sum_list (map blurry rows)
     \<and> insufficient_motion totals = sum_list (map insufficient_motion rows)"

text \<open>
  An integer that fits a signed 64-bit integer; a row all of whose counters do; a list of
  rows all of whose counters and all of whose nine column sums do.
\<close>

definition fits_int64 :: "int \<Rightarrow> bool" where
  "fits_int64 x \<longleftrightarrow> - (2 ^ 63) \<le> x \<and> x < 2 ^ 63"

definition row_fits :: "stats \<Rightarrow> bool" where
  "row_fits st \<longleftrightarrow>
     fits_int64 (total_videos st) \<and> fits_int64 (accepted_videos st)
     \<and> fits_int64 (rejected_videos st) \<and> fits_int64 (corrupted_files st)
     \<and> fits_int64 (low_resolution st) \<and> fits_int64 (too_dark st)
     \<and> fits_int64 (too_bright st) \<and> fits_int64 (blurry st)
     \<and> fits_int64 (insufficient_motion st)"

definition columns_fit :: "stats list \<Rightarrow> bool" where
  "columns_fit rows \<longleftrightarrow>
     list_all row_fits rows
     \<and> fits_int64 (sum_list (map total_videos rows))
     \<and> fits_int64 (sum_list (map accepted_videos rows))
     \<and> fits_int64 (sum_list (map rejected_videos rows))
     \<and> fits_int64 (sum_list (map corrupted_files rows))
     \<and> fits_int64 (sum_list (map low_resolution rows))
     \<and> fits_int64 (sum_list (map too_dark rows))
     \<and> fits_int64 (sum_list (map too_bright rows))
     \<and> fits_int64 (sum_list (map blurry rows))
     \<and> fits_int64 (sum_list (map insufficient_motion rows))"

text \<open>The number of video files of a walk.\<close>

definition video_count :: "(string \<times> (string \<times> 'f video) list) list \<Rightarrow> int" where
  "video_count walk =
     sum_list (map (\<lambda>d. int (length (filter (\<lambda>fv. is_video_file (fst fv)) (snd d)))) walk)"

text \<open>A stats record none of whose other counters is negative or above \<^verbatim>\<open>total_videos\<close>.\<close>

definition within_total :: "stats \<Rightarrow> bool" where
  "within_total st \<longleftrightarrow>
     0 \<le> accepted_videos st \<and> accepted_videos st \<le> total_videos st
     \<and> 0 \<le> rejected_videos st \<and> rejected_videos st \<le> total_videos st
     \<and> 0 \<le> corrupted_files st \<and> corrupted_files st \<le> total_videos st
     \<and> 0 \<le> low_resolution st \<and> low_resolution st \<le> total_videos st
     \<and> 0 \<le> too_dark st \<and> too_dark st \<le> total_videos st
     \<and> 0 \<le> too_bright st \<and> too_bright st \<le> total_videos st
     \<and> 0 \<le> blurry st \<and> blurry st \<le> total_videos st
     \<and> 0 \<le> insufficient_motion st \<and> insufficient_motion st \<le> total_videos st"

text \<open>The invariant of the walk, on \<^verbatim>\<open>overall_exercise_stats\<close> and \<^verbatim>\<open>totals\<close>.\<close>

definition walk_inv :: "stats list \<times> stats \<Rightarrow> bool" where
  "walk_inv acc \<longleftrightarrow>
     list_all balanced (fst acc) \<and> balanced (snd acc) \<and> sums_match (fst acc) (snd acc)"

section \<open>Example inputs\<close>

text \<open>
  The scenario of the specification: 320 by 240, brightness 20, sharpness 10, a
  motion-enabled category and no motion detected.
\<close>

definition scenario_metrics :: metrics where
  "scenario_metrics = \<lparr>width = Some 320, height = Some 240,
     mean_brightness = Some (Fin 20), sharpness_score = Some (Fin 10),
     motion_flag = Some True, motion_detected = Some False,
     motion_pairs = Some 19, motion_active_pairs = Some 0,
     motion_active_frame_pct = Some (Fin 0), motion_mean_change_ratio = Some (Fin 0),
     motion_max_change_ratio = Some (Fin 0)\<rparr>"

text \<open>
  Image primitives on frames that are plain numbers: every frame has brightness 100 and
  sharpness 80, and two frames differ in all their pixels unless they are equal.
\<close>

fun fval :: "pyfloat \<Rightarrow> real" where
  "fval (Fin x) = x"
| "fval NaN = 0"
| "fval PInf = 0"
| "fval NInf = 0"

definition demo_ops :: "nat cv_ops" where
  "demo_ops = \<lparr>gray_mean = (\<lambda>f. Fin 100), lap_var = (\<lambda>f. Fin 80),
     gray_blur = (\<lambda>f. f),
     change_ratio = (\<lambda>a b. if a = b then Fin 0 else Fin 1),
     np_mean = (\<lambda>xs. Fin (sum_list (map fval xs) / real (length xs))),
     np_max = (\<lambda>xs. Fin (Max (set (map fval xs)))),
     true_div = (\<lambda>a b. Fin (real_of_int a / real_of_int b))\<rparr>"

text \<open>
  The first video reports 5 frames, fails to decode index 0 and decodes every other index
  to a frame of its own; the second does not open. A motion policy, and a walk over two
  categories with video files, a directory without files and one without video files.
\<close>

definition gappy_video :: "nat video" where
  "gappy_video = \<lparr>opens = True, frame_width = 1280, frame_height = 720, frame_count = 5,
     read_frame = (\<lambda>i. if i = 0 then None else Some (nat i))\<rparr>"

definition unopened_video :: "nat video" where
  "unopened_video = \<lparr>opens = False, frame_width = 0, frame_height = 0, frame_count = 0,
     read_frame = (\<lambda>i. None)\<rparr>"

definition demo_flags :: "string \<rightharpoonup> bool" where
  "demo_flags = [''plank'' \<mapsto> False, ''squat'' \<mapsto> True]"

definition demo_walk :: "(string \<times> (string \<times> nat video) list) list" where
  "demo_walk = [(''dataset'', []),
                (''squat'', [(''a.MP4'', gappy_video), (''notes.txt'', unopened_video),
                             (''b.mov'', unopened_video)]),
                (''docs'', [(''readme.md'', unopened_video)]),
                (''plank'', [(''c.avi'', gappy_video)])]"

text \<open>What the runs on these inputs return.\<close>

definition gappy_sampling :: "nat sampling" where
  "gappy_sampling = \<lparr>frame_index = 9, samples_collected = 2,
     sampled_brightness = [Fin 100, Fin 100], sampled_sharpness = [Fin 80, Fin 80],
     prev_gray_for_motion = None, active_count = 0, pairs_count = 0, change_ratios = [],
     cap = \<lparr>cap_opened = True, cap_log = [Seek 0, Seek 3, Seek 6]\<rparr>\<rparr>"

definition gappy_metrics :: metrics where
  "gappy_metrics = \<lparr>width = Some 1280, height = Some 720, mean_brightness = Some (Fin 100),
     sharpness_score = Some (Fin 80), motion_flag = Some False,
     motion_detected = Some False, motion_pairs = Some 0, motion_active_pairs = Some 0,
     motion_active_frame_pct = Some NaN, motion_mean_change_ratio = Some NaN,
     motion_max_change_ratio = Some NaN\<rparr>"

definition gappy_cap :: cap_state where
  "gappy_cap = \<lparr>cap_opened = False, cap_log = [Seek 0, Seek 3, Seek 6, Release]\<rparr>"

definition demo_rows :: "stats list" where
  "demo_rows =
    [\<lparr>Exercise = ''squat'', total_videos = 2, accepted_videos = 1, rejected_videos = 1,
      corrupted_files = 1, low_resolution = 0, too_dark = 0, too_bright = 0, blurry = 0,
      insufficient_motion = 0\<rparr>,
     \<lparr>Exercise = ''plank'', total_videos = 1, accepted_videos = 1, rejected_videos = 0,
      corrupted_files = 0, low_resolution = 0, too_dark = 0, too_bright = 0, blurry = 0,
      insufficient_motion = 0\<rparr>]"

definition demo_df :: "stats list" where
  "demo_df = demo_rows @
    [\<lparr>Exercise = ''TOTAL'', total_videos = 3, accepted_videos = 2, rejected_videos = 1,
      corrupted_files = 1, low_resolution = 0, too_dark = 0, too_bright = 0, blurry = 0,
      insufficient_motion = 0\<rparr>]"

definition demo_totals :: stats where
  "demo_totals = \<lparr>Exercise = ''ALL_EXERCISES'', total_videos = 3, accepted_videos = 2,
     rejected_videos = 1, corrupted_files = 1, low_resolution = 0, too_dark = 0,
     too_bright = 0, blurry = 0, insufficient_motion = 0\<rparr>"

text \<open>Two categories of \<open>2\<^sup>6\<^sup>2\<close> accepted videos each, and the data frame of their report.\<close>

definition big_rows :: "stats list" where
  "big_rows =
    [\<lparr>Exercise = ''squat'', total_videos = 4611686018427387904,
      accepted_videos = 4611686018427387904, rejected_videos = 0,
      corrupted_files = 0, low_resolution = 0, too_dark = 0, too_bright = 0, blurry = 0,
      insufficient_motion = 0\<rparr>,
     \<lparr>Exercise = ''plank'', total_videos = 4611686018427387904,
      accepted_videos = 4611686018427387904, rejected_videos = 0,
      corrupted_files = 0, low_resolution = 0, too_dark = 0, too_bright = 0, blurry = 0,
      insufficient_motion = 0\<rparr>]"

definition big_df :: "stats list" where
  "big_df = big_rows @
    [\<lparr>Exercise = ''TOTAL'', total_videos = - 9223372036854775808,
      accepted_videos = - 9223372036854775808, rejected_videos = 0,
      corrupted_files = 0, low_resolution = 0, too_dark = 0, too_bright = 0, blurry = 0,
      insufficient_motion = 0\<rparr>]"

section \<open>Properties of the acceptance evaluator\<close>

lemmas check_defs = check_resolution_def check_brightness_def check_sharpness_def
  check_motion_def

lemmas result_defs = accepted_of_def reasons_of_def stats_of_def

lemmas threshold_defs = MIN_FRAME_WIDTH_def MIN_FRAME_HEIGHT_def MIN_SHARPNESS_SCORE_def
  MIN_BRIGHTNESS_def MAX_BRIGHTNESS_def

text \<open>
  C1. When \<^verbatim>\<open>"corrupted_file"\<close> is among the issues, or the mean brightness is undefined
  (a NaN, or its key is absent so that the default NaN is read), or the sharpness score is
  undefined, the evaluator rejects with exactly the reasons \<^verbatim>\<open>["corrupted_file"]\<close>; the
  only counter it touches is \<^verbatim>\<open>corrupted_files\<close>: no resolution, brightness, sharpness or
  motion check adds a reason or a count.
\<close>

theorem corrupted_rejects_immediately:
  assumes "''corrupted_file'' \<in> set issues
             \<or> isnan (dict_get (mean_brightness m) NaN)
             \<or> isnan (dict_get (sharpness_score m) NaN)"
  shows "accepted_of (evaluate_video_acceptance m issues st) = False
       \<and> reasons_of (evaluate_video_acceptance m issues st) = [''corrupted_file'']
       \<and> stats_of (evaluate_video_acceptance m issues st)
            = st\<lparr>corrupted_files := corrupted_files st + 1\<rparr>"
  using assms by (auto simp: evaluate_video_acceptance_def result_defs Let_def)

text \<open>The empty metrics dictionary of a video that did not open, with no issue listed.\<close>

theorem corrupted_rejects_immediately_witness:
  "isnan (dict_get (mean_brightness empty_metrics) NaN)
   \<and> accepted_of (evaluate_video_acceptance empty_metrics [] (default_stats ''squat'')) = False
   \<and> reasons_of (evaluate_video_acceptance empty_metrics [] (default_stats ''squat''))
        = [''corrupted_file'']
   \<and> corrupted_files (stats_of (evaluate_video_acceptance empty_metrics [] (default_stats ''squat''))) = 1
   \<and> low_resolution (stats_of (evaluate_video_acceptance empty_metrics [] (default_stats ''squat''))) = 0"
proof -
  have h: "isnan (dict_get (mean_brightness empty_metrics) NaN)"
    by (simp add: empty_metrics_def)
  from corrupted_rejects_immediately [of "[]" empty_metrics "default_stats ''squat''"] h
  show ?thesis by (simp add: default_stats_def)
qed

text \<open>
  C2. Off the corrupted-file path, a video that is too small (width below 640 or height
  below 360), darker than 35, less sharp than 50, and without detected motion in a
  motion-enabled category is rejected with exactly the reasons
  \<^verbatim>\<open>["low_resolution", "too_dark", "blurry", "insufficient_motion"]\<close>, in that order.
\<close>

theorem all_checks_fail_in_order:
  assumes "''corrupted_file'' \<notin> set issues"
    and "\<not> isnan (dict_get (mean_brightness m) NaN)"
    and "\<not> isnan (dict_get (sharpness_score m) NaN)"
    and "dict_get (width m) 0 < 640 \<or> dict_get (height m) 0 < 360"
    and "flt (dict_get (mean_brightness m) NaN) 35"
    and "flt (dict_get (sharpness_score m) NaN) 50"
    and "dict_get (motion_flag m) False"
    and "\<not> dict_get (motion_detected m) False"
  shows "accepted_of (evaluate_video_acceptance m issues st) = False
       \<and> reasons_of (evaluate_video_acceptance m issues st)
           = [''low_resolution'', ''too_dark'', ''blurry'', ''insufficient_motion'']"
  using assms
  by (simp add: evaluate_video_acceptance_def result_defs Let_def check_defs threshold_defs)

text \<open>The scenario of the specification: 320 by 240, brightness 20, sharpness 10.\<close>

theorem all_checks_fail_in_order_witness:
  "''corrupted_file'' \<notin> set []
   \<and> \<not> isnan (dict_get (mean_brightness scenario_metrics) NaN)
   \<and> \<not> isnan (dict_get (sharpness_score scenario_metrics) NaN)
   \<and> dict_get (width scenario_metrics) 0 < 640
   \<and> flt (dict_get (mean_brightness scenario_metrics) NaN) 35
   \<and> flt (dict_get (sharpness_score scenario_metrics) NaN) 50
   \<and> dict_get (motion_flag scenario_metrics) False
   \<and> \<not> dict_get (motion_detected scenario_metrics) False
   \<and> accepted_of (evaluate_video_acceptance scenario_metrics [] (default_stats ''squat'')) = False
   \<and> reasons_of (evaluate_video_acceptance scenario_metrics [] (default_stats ''squat''))
        = [''low_resolution'', ''too_dark'', ''blurry'', ''insufficient_motion'']"
  using all_checks_fail_in_order [of "[]" scenario_metrics "default_stats ''squat''"]
  by (simp add: scenario_metrics_def)

text \<open>
  C3. The verdict of the evaluator is true exactly when the list of reasons it returns is
  empty.
\<close>

theorem accepted_iff_no_reasons:
  "accepted_of (evaluate_video_acceptance m issues st)
     \<longleftrightarrow> reasons_of (evaluate_video_acceptance m issues st) = []"
  by (simp add: evaluate_video_acceptance_def result_defs Let_def check_defs)

text \<open>
  C9. The reasons never hold both \<^verbatim>\<open>"too_dark"\<close> and \<^verbatim>\<open>"too_bright"\<close>: at most one of the
  two brightness tags fires for a video.
\<close>

theorem dark_and_bright_exclusive:
  "\<not> (''too_dark'' \<in> set (reasons_of (evaluate_video_acceptance m issues st))
      \<and> ''too_bright'' \<in> set (reasons_of (evaluate_video_acceptance m issues st)))"
  by (simp add: evaluate_video_acceptance_def result_defs Let_def check_defs)

text \<open>
  C7. The stats dictionary the evaluator leaves is the one it was given with the counter
  of every reason in the returned list raised by exactly one (a reason occurs in the list
  at most once), and nothing else changed: the counters of the reasons that did not fire,
  \<^verbatim>\<open>total_videos\<close>, \<^verbatim>\<open>accepted_videos\<close>, \<^verbatim>\<open>rejected_videos\<close> and \<^verbatim>\<open>Exercise\<close> are as before.
\<close>

theorem counters_follow_reasons:
  "stats_of (evaluate_video_acceptance m issues st) =
     st\<lparr>corrupted_files := corrupted_files st
           + of_bool (''corrupted_file'' \<in> set (reasons_of (evaluate_video_acceptance m issues st))),
        low_resolution := low_resolution st
           + of_bool (''low_resolution'' \<in> set (reasons_of (evaluate_video_acceptance m issues st))),
        too_dark := too_dark st
           + of_bool (''too_dark'' \<in> set (reasons_of (evaluate_video_acceptance m issues st))),
        too_bright := too_bright st
           + of_bool (''too_bright'' \<in> set (reasons_of (evaluate_video_acceptance m issues st))),
        blurry := blurry st
           + of_bool (''blurry'' \<in> set (reasons_of (evaluate_video_acceptance m issues st))),
        insufficient_motion := insufficient_motion st
           + of_bool (''insufficient_motion'' \<in> set (reasons_of (evaluate_video_acceptance m issues st)))\<rparr>
   \<and> distinct (reasons_of (evaluate_video_acceptance m issues st))"
  by (simp add: evaluate_video_acceptance_def result_defs Let_def check_defs)

section \<open>Properties of the frame sampler\<close>

lemma sample_step_index:
  "frame_index (sample_step ops v mflag S s) = frame_index s + S"
  by (simp add: sample_step_def cap_read_at_def motion_update_def Let_def
      split: option.splits)

lemma sample_step_cap:
  "cap (sample_step ops v mflag S s)
     = (cap s)\<lparr>cap_log := cap_log (cap s) @ [Seek (frame_index s)]\<rparr>"
  by (simp add: sample_step_def cap_read_at_def motion_update_def Let_def
      split: option.splits)

lemma sample_step_collected:
  "samples_collected (sample_step ops v mflag S s)
     = samples_collected s + (if read_frame v (frame_index s) = None then 0 else 1)"
  by (simp add: sample_step_def cap_read_at_def motion_update_def Let_def
      split: option.splits)

lemma sample_loop_returns:
  assumes "1 \<le> S"
  shows "\<exists>s'. sample_loop ops v mflag N S s = Some s'"
proof (induction "nat (max (frame_count v) (N * S + 1) - frame_index s)"
    arbitrary: s rule: less_induct)
  case less
  show ?case
  proof (cases "sample_cond v N S s")
    case False
    then show ?thesis by (subst sample_loop.simps) simp
  next
    case True
    then have "nat (max (frame_count v) (N * S + 1) - frame_index (sample_step ops v mflag S s))
                 < nat (max (frame_count v) (N * S + 1) - frame_index s)"
      using assms by (simp add: sample_cond_def sample_step_index)
    from less [OF this] obtain s' where
      "sample_loop ops v mflag N S (sample_step ops v mflag S s) = Some s'" by blast
    with True show ?thesis by (subst sample_loop.simps) simp
  qed
qed

lemma seek_indices_append:
  "seek_indices (cs @ ds) = seek_indices cs @ seek_indices ds"
  by (induction cs rule: seek_indices.induct) simp_all

lemma candidates_Suc: "candidates S (Suc k) = candidates S k @ [int k * S]"
  by (simp add: candidates_def)

lemma sampling_inv_step:
  assumes "sampling_inv v N S k s" and "sample_cond v N S s"
  shows "sampling_inv v N S (Suc k) (sample_step ops v mflag S s)"
proof -
  from assms have idx: "frame_index s = int k * S"
    and log: "seek_indices (cap_log (cap s)) = candidates S k"
    and cnt: "samples_collected s = int (length (filter (decoded v) (candidates S k)))"
    and old: "\<forall>j<k. int j * S < sampling_bound v N S
              \<and> int (length (filter (decoded v) (candidates S j))) < N"
    by (simp_all add: sampling_inv_def)
  from assms(2) have lt: "samples_collected s < N"
    and bd: "frame_index s < sampling_bound v N S"
    by (simp_all add: sample_cond_def sampling_bound_def)
  have 1: "frame_index (sample_step ops v mflag S s) = int (Suc k) * S"
    by (simp add: sample_step_index idx algebra_simps)
  have 2: "seek_indices (cap_log (cap (sample_step ops v mflag S s))) = candidates S (Suc k)"
    by (simp add: sample_step_cap seek_indices_append log candidates_Suc idx)
  have 3: "samples_collected (sample_step ops v mflag S s)
             = int (length (filter (decoded v) (candidates S (Suc k))))"
    by (simp add: sample_step_collected candidates_Suc cnt idx decoded_def)
  have 4: "samples_collected (sample_step ops v mflag S s) \<le> N"
    using lt by (simp add: sample_step_collected)
  have 5: "\<forall>j<Suc k. int j * S < sampling_bound v N S
              \<and> int (length (filter (decoded v) (candidates S j))) < N"
  proof (intro allI impI)
    fix j assume "j < Suc k"
    then consider "j < k" | "j = k" by linarith
    then show "int j * S < sampling_bound v N S
              \<and> int (length (filter (decoded v) (candidates S j))) < N"
    proof cases
      case 1 with old show ?thesis by blast
    next
      case 2 with bd lt idx cnt show ?thesis by simp
    qed
  qed
  from 1 2 3 4 5 show ?thesis unfolding sampling_inv_def by blast
qed

lemma sample_loop_invariant:
  assumes "1 \<le> S" and "sampling_inv v N S k s"
  shows "\<exists>s' k'. sample_loop ops v mflag N S s = Some s'
           \<and> sampling_inv v N S k' s' \<and> \<not> sample_cond v N S s'"
  using assms(2)
proof (induction "nat (sampling_bound v N S - frame_index s)"
    arbitrary: s k rule: less_induct)
  case less
  show ?case
  proof (cases "sample_cond v N S s")
    case False
    have "sample_loop ops v mflag N S s = Some s"
      using False by (subst sample_loop.simps) simp
    with False less.prems show ?thesis by blast
  next
    case True
    have dec: "nat (sampling_bound v N S - frame_index (sample_step ops v mflag S s))
                 < nat (sampling_bound v N S - frame_index s)"
      using True assms(1) by (simp add: sample_cond_def sample_step_index sampling_bound_def)
    have "sampling_inv v N S (Suc k) (sample_step ops v mflag S s)"
      using less.prems True by (rule sampling_inv_step)
    from less.hyps [OF dec this] obtain s' k' where
      "sample_loop ops v mflag N S (sample_step ops v mflag S s) = Some s'"
      "sampling_inv v N S k' s'" "\<not> sample_cond v N S s'" by blast
    moreover have "sample_loop ops v mflag N S s
        = sample_loop ops v mflag N S (sample_step ops v mflag S s)"
      using True by (subst sample_loop.simps) simp
    ultimately show ?thesis by auto
  qed
qed

lemma sampling_inv_initial:
  "0 \<le> N \<Longrightarrow> sampling_inv v N S 0 (initial_sampling (VideoCapture v))"
  by (simp add: sampling_inv_def initial_sampling_def VideoCapture_def candidates_def)

text \<open>
  C5. For a target count \<open>N \<ge> 0\<close> and a stride \<open>S \<ge> 1\<close>, whatever the reported frame count
  and whatever decodes, the sampling loop returns. The indices it positions the decoder at
  are exactly \<open>0, S, \<dots>, (k - 1) S\<close> for some \<open>k\<close>; each was below the bound
  \<^verbatim>\<open>max(frame_count, N * S + 1)\<close> and was visited while fewer than \<open>N\<close> frames had been
  decoded; the loop ends with the index at \<open>k S\<close> and either \<open>N\<close> frames collected or
  the index at or past the bound. The number of frames collected is the number of visited
  indices that decoded (a failed decode moves the index on by \<open>S\<close> and counts nothing), and
  is at most \<open>N\<close>.
\<close>

theorem sampling_loop_terminates:
  assumes "0 \<le> N" and "1 \<le> S"
  shows "\<exists>s k. sample_loop ops v mflag N S (initial_sampling (VideoCapture v)) = Some s
     \<and> seek_indices (cap_log (cap s)) = map (\<lambda>j. int j * S) [0..<k]
     \<and> (\<forall>j<k. int j * S < max (frame_count v) (N * S + 1)
            \<and> int (length (filter (\<lambda>i. read_frame v i \<noteq> None)
                     (map (\<lambda>j. int j * S) [0..<j]))) < N)
     \<and> frame_index s = int k * S
     \<and> (samples_collected s = N \<or> max (frame_count v) (N * S + 1) \<le> frame_index s)
     \<and> samples_collected s
         = int (length (filter (\<lambda>i. read_frame v i \<noteq> None) (seek_indices (cap_log (cap s)))))
     \<and> samples_collected s \<le> N"
proof -
  from sample_loop_invariant [OF assms(2) sampling_inv_initial [OF assms(1)]]
  obtain s k where run: "sample_loop ops v mflag N S (initial_sampling (VideoCapture v)) = Some s"
    and inv: "sampling_inv v N S k s" and stop: "\<not> sample_cond v N S s"
    by blast
  have dv: "decoded v = (\<lambda>i. read_frame v i \<noteq> None)"
    by (simp add: decoded_def fun_eq_iff)
  from inv have a: "seek_indices (cap_log (cap s)) = map (\<lambda>j. int j * S) [0..<k]"
    by (simp add: sampling_inv_def candidates_def)
  from inv have b: "\<forall>j<k. int j * S < max (frame_count v) (N * S + 1)
            \<and> int (length (filter (\<lambda>i. read_frame v i \<noteq> None)
                     (map (\<lambda>j. int j * S) [0..<j]))) < N"
    unfolding sampling_inv_def candidates_def sampling_bound_def dv by blast
  from inv have c: "frame_index s = int k * S" by (simp add: sampling_inv_def)
  from inv have le: "samples_collected s \<le> N" by (simp add: sampling_inv_def)
  from stop le have d: "samples_collected s = N \<or> max (frame_count v) (N * S + 1) \<le> frame_index s"
    by (auto simp: sample_cond_def)
  from inv have e: "samples_collected s
         = int (length (filter (\<lambda>i. read_frame v i \<noteq> None) (seek_indices (cap_log (cap s)))))"
    unfolding sampling_inv_def dv by simp
  from run a b c d e le show ?thesis by blast
qed

text \<open>Two frames at stride 3 from a video that reports 5 frames and fails to decode
  index 0: the decoder is positioned at 0, 3 and 6.\<close>

theorem sampling_loop_terminates_witness:
  "(0::int) \<le> 2 \<and> (1::int) \<le> 3
   \<and> (\<exists>s k. sample_loop demo_ops gappy_video False 2 3 (initial_sampling (VideoCapture gappy_video))
              = Some s
     \<and> seek_indices (cap_log (cap s)) = map (\<lambda>j. int j * 3) [0..<k]
     \<and> (\<forall>j<k. int j * 3 < max (frame_count gappy_video) (2 * 3 + 1)
            \<and> int (length (filter (\<lambda>i. read_frame gappy_video i \<noteq> None)
                     (map (\<lambda>j. int j * 3) [0..<j]))) < 2)
     \<and> frame_index s = int k * 3
     \<and> (samples_collected s = 2 \<or> max (frame_count gappy_video) (2 * 3 + 1) \<le> frame_index s)
     \<and> samples_collected s
         = int (length (filter (\<lambda>i. read_frame gappy_video i \<noteq> None)
                  (seek_indices (cap_log (cap s)))))
     \<and> samples_collected s \<le> 2)
   \<and> sample_loop demo_ops gappy_video False 2 3 (initial_sampling (VideoCapture gappy_video))
       = Some gappy_sampling"
proof -
  have h1: "(0::int) \<le> 2" by simp
  have h2: "(1::int) \<le> 3" by simp
  have run: "sample_loop demo_ops gappy_video False 2 3
               (initial_sampling (VideoCapture gappy_video)) = Some gappy_sampling"
    by code_simp
  show ?thesis
    by (intro conjI h1 h2 run sampling_loop_terminates [OF h1 h2])
qed

section \<open>Properties of the per-video analysis\<close>

lemma sample_loop_partial:
  assumes run: "sample_loop ops v mflag N S s = Some s'"
    and init: "P s"
    and step: "\<And>t. P t \<Longrightarrow> sample_cond v N S t \<Longrightarrow> P (sample_step ops v mflag S t)"
  shows "P s' \<and> \<not> sample_cond v N S s'"
proof -
  define Q where "Q = (\<lambda>(ops' :: 'a cv_ops) (v' :: 'a video) (mflag' :: bool) (N' :: int) (S' :: int)
      (t :: 'a sampling) (t' :: 'a sampling).
        ops' = ops \<and> v' = v \<and> mflag' = mflag \<and> N' = N \<and> S' = S \<longrightarrow> P t
          \<longrightarrow> P t' \<and> \<not> sample_cond v N S t')"
  have "Q ops v mflag N S s s'"
  proof (rule sample_loop.raw_induct [where P = Q, OF _ run])
    fix loop :: "'a cv_ops \<Rightarrow> 'a video \<Rightarrow> bool \<Rightarrow> int \<Rightarrow> int \<Rightarrow> 'a sampling \<Rightarrow> 'a sampling option"
    fix ops' v' mflag' N' S' t t'
    assume IH: "\<And>a b c d e f y. loop a b c d e f = Some y \<Longrightarrow> Q a b c d e f y"
    assume eq: "(if sample_cond v' N' S' t
                 then loop ops' v' mflag' N' S' (sample_step ops' v' mflag' S' t)
                 else Some t) = Some t'"
    show "Q ops' v' mflag' N' S' t t'"
    proof (cases "sample_cond v' N' S' t")
      case True
      with eq have "loop ops' v' mflag' N' S' (sample_step ops' v' mflag' S' t) = Some t'"
        by simp
      from IH [OF this] have "Q ops' v' mflag' N' S' (sample_step ops' v' mflag' S' t) t'" .
      with True step show ?thesis unfolding Q_def by blast
    next
      case False
      with eq have "t' = t" by simp
      with False show ?thesis unfolding Q_def by blast
    qed
  qed
  with init show ?thesis unfolding Q_def by blast
qed

lemma unopened_run:
  "analyze_video_quality demo_ops demo_flags unopened_video 20 15 ''squat''
     = Some ((empty_metrics, [''corrupted_file'']), \<lparr>cap_opened = False, cap_log = []\<rparr>)"
  by (simp add: analyze_video_quality_def VideoCapture_def unopened_video_def)

text \<open>
  C4, as stated, fails: on the early exit taken when the decoder does not open,
  \<^verbatim>\<open>analyze_video_quality\<close> returns without any call of \<^verbatim>\<open>cap.release()\<close>.
\<close>

theorem no_release_when_open_fails:
  "analyze_video_quality demo_ops demo_flags unopened_video 20 15 ''squat''
     = Some ((empty_metrics, [''corrupted_file'']), \<lparr>cap_opened = False, cap_log = []\<rparr>)
   \<and> \<not> released_before_return
        (analyze_video_quality demo_ops demo_flags unopened_video 20 15 ''squat'')"
  by (simp add: unopened_run released_before_return_def)

lemma sample_step_keeps_handle:
  "cap_opened (cap (sample_step ops v mflag S t)) = cap_opened (cap t)
   \<and> (Release \<in> set (cap_log (cap (sample_step ops v mflag S t)))
        \<longleftrightarrow> Release \<in> set (cap_log (cap t)))"
  by (simp add: sample_step_cap)

text \<open>
  C4, amended. Whenever \<^verbatim>\<open>analyze_video_quality\<close> returns, the handle holds no open decoder.
  \<^verbatim>\<open>cap.release()\<close> is called exactly when the decoder had opened, and then exactly once,
  as the last call on the handle; on the early exit of a decoder that did not open, no
  call is made on the handle at all.
\<close>

theorem handle_closed_on_return:
  assumes "analyze_video_quality ops flags v N S name = Some (r, c)"
  shows "\<not> cap_opened c
       \<and> (Release \<in> set (cap_log c) \<longleftrightarrow> opens v)
       \<and> (opens v \<longrightarrow> last (cap_log c) = Release \<and> Release \<notin> set (butlast (cap_log c)))"
proof (cases "opens v")
  case False
  with assms have "c = VideoCapture v"
    by (simp add: analyze_video_quality_def VideoCapture_def)
  with False show ?thesis by (simp add: VideoCapture_def)
next
  case True
  with assms obtain s where
    run: "sample_loop ops v (dict_get (flags name) False) N S (initial_sampling (VideoCapture v))
            = Some s"
    and c: "c = cap_release (cap s)"
    by (auto simp: analyze_video_quality_def VideoCapture_def Let_def
        split: bind_splits)
  have "Release \<notin> set (cap_log (cap s)) \<and> \<not> sample_cond v N S s"
    by (rule sample_loop_partial [OF run])
       (simp_all add: initial_sampling_def VideoCapture_def sample_step_keeps_handle)
  with c True show ?thesis by (simp add: cap_release_def)
qed

theorem handle_closed_on_return_witness:
  "analyze_video_quality demo_ops demo_flags gappy_video 2 3 ''plank''
     = Some ((gappy_metrics, []), gappy_cap)
   \<and> opens gappy_video
   \<and> \<not> cap_opened gappy_cap
   \<and> Release \<in> set (cap_log gappy_cap)
   \<and> last (cap_log gappy_cap) = Release
   \<and> Release \<notin> set (butlast (cap_log gappy_cap))"
proof -
  have run: "analyze_video_quality demo_ops demo_flags gappy_video 2 3 ''plank''
               = Some ((gappy_metrics, []), gappy_cap)"
    by code_simp
  have o: "opens gappy_video" by (simp add: gappy_video_def)
  from handle_closed_on_return [OF run] o run show ?thesis by blast
qed

text \<open>
  C6. When the motion policy maps the category to false, or has no entry for it, the
  reasons the evaluator returns for the metrics and issues of any video of that category
  never contain \<^verbatim>\<open>"insufficient_motion"\<close>, whatever the frames of the video are.
\<close>

theorem no_motion_tag_when_disabled:
  assumes "flags name = Some False \<or> flags name = None"
    and "analyze_video_quality ops flags v N S name = Some ((m, issues), c)"
  shows "''insufficient_motion'' \<notin> set (reasons_of (evaluate_video_acceptance m issues st))"
proof -
  from assms(1) have off: "dict_get (flags name) False = False" by auto
  from assms(2) have "dict_get (motion_flag m) False = False"
    by (auto simp: analyze_video_quality_def Let_def off build_metrics_def empty_metrics_def
        split: if_splits bind_splits)
  then show ?thesis
    by (simp add: evaluate_video_acceptance_def reasons_of_def Let_def check_resolution_def
        check_brightness_def check_sharpness_def check_motion_def)
qed

text \<open>A video whose sampled frames all differ, in a category whose policy is false.\<close>

theorem no_motion_tag_when_disabled_witness:
  "demo_flags ''plank'' = Some False
   \<and> analyze_video_quality demo_ops demo_flags gappy_video 2 3 ''plank''
       = Some ((gappy_metrics, []), gappy_cap)
   \<and> ''insufficient_motion''
       \<notin> set (reasons_of (evaluate_video_acceptance gappy_metrics [] (default_stats ''plank'')))"
proof -
  have f: "demo_flags ''plank'' = Some False" by (simp add: demo_flags_def)
  have run: "analyze_video_quality demo_ops demo_flags gappy_video 2 3 ''plank''
               = Some ((gappy_metrics, []), gappy_cap)"
    by code_simp
  from no_motion_tag_when_disabled [OF disjI1 [OF f] run, of "default_stats ''plank''"] f run
  show ?thesis by blast
qed

section \<open>Properties of the cleaning loop and the report\<close>

lemma analyze_returns:
  assumes "1 \<le> S"
  shows "\<exists>r. analyze_video_quality ops flags v N S name = Some r"
proof (cases "opens v")
  case False
  then show ?thesis by (simp add: analyze_video_quality_def VideoCapture_def)
next
  case True
  from sample_loop_returns [OF assms] obtain s where
    "sample_loop ops v (dict_get (flags name) False) N S (initial_sampling (VideoCapture v))
       = Some s" by blast
  with True show ?thesis by (simp add: analyze_video_quality_def VideoCapture_def Let_def)
qed

lemma evaluate_keeps_totals:
  "total_videos (stats_of (evaluate_video_acceptance m issues st)) = total_videos st
   \<and> accepted_videos (stats_of (evaluate_video_acceptance m issues st)) = accepted_videos st
   \<and> rejected_videos (stats_of (evaluate_video_acceptance m issues st)) = rejected_videos st"
  by (simp add: evaluate_video_acceptance_def stats_of_def Let_def check_resolution_def
      check_brightness_def check_sharpness_def check_motion_def)

lemma process_file_balanced:
  "\<exists>st' any'. process_file ops flags folder (st, any) fv = Some (st', any')
       \<and> (balanced st \<longrightarrow> balanced st')
       \<and> total_videos st' = total_videos st + (if is_video_file (fst fv) then 1 else 0)"
proof -
  obtain fname v where fv: "fv = (fname, v)" by (cases fv)
  show ?thesis
  proof (cases "is_video_file fname")
    case False
    then show ?thesis by (simp add: process_file_def fv)
  next
    case True
    have "(1::int) \<le> FRAME_STRIDE" by (simp add: FRAME_STRIDE_def)
    from analyze_returns [OF this] obtain r where
      r: "analyze_video_quality ops flags v NUM_SAMPLED_FRAMES FRAME_STRIDE folder = Some r"
      by blast
    define st1 where "st1 = st\<lparr>total_videos := total_videos st + 1\<rparr>"
    define e where "e = evaluate_video_acceptance (fst (fst r)) (snd (fst r)) st1"
    define st3 where "st3 = (if accepted_of e
        then (stats_of e)\<lparr>accepted_videos := accepted_videos (stats_of e) + 1\<rparr>
        else (stats_of e)\<lparr>rejected_videos := rejected_videos (stats_of e) + 1\<rparr>)"
    have run: "process_file ops flags folder (st, any) fv = Some (st3, True)"
      using True r by (simp add: process_file_def fv Let_def st1_def e_def st3_def)
    have keep: "total_videos (stats_of e) = total_videos st + 1"
      "accepted_videos (stats_of e) = accepted_videos st"
      "rejected_videos (stats_of e) = rejected_videos st"
      using evaluate_keeps_totals [of "fst (fst r)" "snd (fst r)" st1]
      by (simp_all add: e_def st1_def)
    have bal: "balanced st \<longrightarrow> balanced st3"
      using keep by (simp add: balanced_def st3_def)
    have cnt: "total_videos st3 = total_videos st + 1"
      using keep by (simp add: st3_def)
    have one: "(if is_video_file (fst fv) then 1 else 0) = (1::int)"
      using True by (simp add: fv)
    from run bal cnt show ?thesis unfolding one by blast
  qed
qed

lemma process_files_balanced:
  "\<exists>st' any'. process_files ops flags folder (st, any) files = Some (st', any')
       \<and> (balanced st \<longrightarrow> balanced st')
       \<and> total_videos st'
           = total_videos st + int (length (filter (\<lambda>fv. is_video_file (fst fv)) files))"
proof (induction files arbitrary: st any)
  case Nil
  show ?case by simp
next
  case (Cons fv files)
  from process_file_balanced obtain st1 any1 where
    1: "process_file ops flags folder (st, any) fv = Some (st1, any1)"
    and b1: "balanced st \<longrightarrow> balanced st1"
    and c1: "total_videos st1 = total_videos st + (if is_video_file (fst fv) then 1 else 0)"
    by blast
  from Cons.IH obtain st2 any2 where
    2: "process_files ops flags folder (st1, any1) files = Some (st2, any2)"
    and b2: "balanced st1 \<longrightarrow> balanced st2"
    and c2: "total_videos st2
           = total_videos st1 + int (length (filter (\<lambda>fv. is_video_file (fst fv)) files))"
    by blast
  from 1 2 b1 b2 c1 c2 show ?case by simp
qed

lemma balanced_default: "balanced (default_stats name)"
  by (simp add: balanced_def default_stats_def)

lemma sums_match_default: "sums_match [] (default_stats name)"
  by (simp add: sums_match_def default_stats_def)

lemma balanced_add: "balanced t \<Longrightarrow> balanced st \<Longrightarrow> balanced (add_to_totals t st)"
  by (simp add: balanced_def add_to_totals_def)

lemma sums_match_add: "sums_match rows t \<Longrightarrow> sums_match (rows @ [st]) (add_to_totals t st)"
  by (simp add: sums_match_def add_to_totals_def)

lemma process_dir_inv:
  assumes "walk_inv acc"
  shows "\<exists>acc'. process_dir ops flags acc d = Some acc' \<and> walk_inv acc'"
proof -
  obtain rows t where acc: "acc = (rows, t)" by (cases acc)
  obtain folder files where d: "d = (folder, files)" by (cases d)
  from process_files_balanced [of ops flags folder "default_stats folder" False files]
  obtain st any where
    run: "process_files ops flags folder (default_stats folder, False) files = Some (st, any)"
    and b: "balanced st" using balanced_default by blast
  from assms acc have inv: "list_all balanced rows" "balanced t" "sums_match rows t"
    by (simp_all add: walk_inv_def)
  show ?thesis
    using run b inv balanced_add [OF inv(2) b] sums_match_add [OF inv(3), of st]
    by (simp add: acc d process_dir_def walk_inv_def)
qed

lemma process_dirs_inv:
  "walk_inv acc \<Longrightarrow> \<exists>acc'. process_dirs ops flags acc ds = Some acc' \<and> walk_inv acc'"
proof (induction ds arbitrary: acc)
  case Nil
  then show ?case by simp
next
  case (Cons d ds)
  from process_dir_inv [OF Cons.prems] obtain acc1 where
    1: "process_dir ops flags acc d = Some acc1" and i1: "walk_inv acc1" by blast
  from Cons.IH [OF i1] obtain acc2 where
    "process_dirs ops flags acc1 ds = Some acc2" "walk_inv acc2" by blast
  with 1 show ?case by simp
qed

lemma walk_inv_initial: "walk_inv ([], default_stats name)"
  by (simp add: walk_inv_def balanced_default sums_match_default)

text \<open>
  C10. After each video file of a directory is processed (that is, after any number \<open>n\<close>
  of its files), the directory's stats record satisfies
  \<^verbatim>\<open>total_videos = accepted_videos + rejected_videos\<close>, and \<^verbatim>\<open>total_videos\<close> is the number of
  video files processed so far: each one raised it once. After any number \<open>k\<close> of
  directories, and at the end of the run, every record of \<^verbatim>\<open>overall_exercise_stats\<close> and
  the global totals satisfy the same equation. Each of these runs returns.
\<close>

theorem counters_balance:
  "(\<exists>st any. process_files ops flags folder (default_stats folder, False) (take n files)
                = Some (st, any)
            \<and> total_videos st = accepted_videos st + rejected_videos st
            \<and> total_videos st
                = int (length (filter (\<lambda>fv. is_video_file (fst fv)) (take n files))))
   \<and> (\<exists>overall totals.
          process_dirs ops flags ([], default_stats ''ALL_EXERCISES'') (take k walk)
            = Some (overall, totals)
        \<and> list_all balanced overall
        \<and> total_videos totals = accepted_videos totals + rejected_videos totals)
   \<and> (\<exists>overall totals report.
          clean_dataset ops flags walk = Some (overall, totals, report)
        \<and> list_all balanced overall
        \<and> total_videos totals = accepted_videos totals + rejected_videos totals)"
proof (intro conjI)
  from process_files_balanced [of ops flags folder "default_stats folder" False "take n files"]
    balanced_default [of folder]
  show "\<exists>st any. process_files ops flags folder (default_stats folder, False) (take n files)
                = Some (st, any)
            \<and> total_videos st = accepted_videos st + rejected_videos st
            \<and> total_videos st
                = int (length (filter (\<lambda>fv. is_video_file (fst fv)) (take n files)))"
    by (auto simp: balanced_def default_stats_def)
next
  from process_dirs_inv [OF walk_inv_initial, of ops flags "''ALL_EXERCISES''" "take k walk"]
  show "\<exists>overall totals.
          process_dirs ops flags ([], default_stats ''ALL_EXERCISES'') (take k walk)
            = Some (overall, totals)
        \<and> list_all balanced overall
        \<and> total_videos totals = accepted_videos totals + rejected_videos totals"
    by (auto simp: walk_inv_def balanced_def)
next
  from process_dirs_inv [OF walk_inv_initial, of ops flags "''ALL_EXERCISES''" walk]
  show "\<exists>overall totals report.
          clean_dataset ops flags walk = Some (overall, totals, report)
        \<and> list_all balanced overall
        \<and> total_videos totals = accepted_videos totals + rejected_videos totals"
    by (auto simp: walk_inv_def balanced_def clean_dataset_def)
qed

lemma int64_wrap_id: "fits_int64 x \<Longrightarrow> int64_wrap x = x"
  by (simp add: fits_int64_def int64_wrap_def)

lemma column_sum_exact: "fits_int64 (sum_list xs) \<Longrightarrow> column_sum xs = sum_list xs"
  by (simp add: column_sum_def int64_wrap_id)

lemma total_row_exact:
  assumes "columns_fit rows"
  shows "sums_match rows (total_row rows)"
  using assms by (simp add: columns_fit_def sums_match_def total_row_def column_sum_exact)

lemma big_report:
  "generate_cleaning_report big_rows (default_stats ''ALL_EXERCISES'') = Some big_df"
  by (simp add: generate_cleaning_report_def big_rows_def big_df_def total_row_def
      column_sum_def int64_wrap_def)

text \<open>
  C8, as stated, fails: the columns of the report are 64-bit, and for two categories of
  \<open>2\<^sup>6\<^sup>2\<close> videos each the \<^verbatim>\<open>TOTAL\<close> row holds \<open>- 2\<^sup>6\<^sup>3\<close> where the sum of the column is
  \<open>2\<^sup>6\<^sup>3\<close>.
\<close>

theorem total_row_wraps_around:
  "generate_cleaning_report big_rows (default_stats ''ALL_EXERCISES'') = Some big_df
   \<and> total_videos (last big_df) = - (2 ^ 63)
   \<and> sum_list (map total_videos big_rows) = 2 ^ 63
   \<and> \<not> sums_match big_rows (last big_df)"
  by (simp add: big_report) (simp add: big_rows_def big_df_def sums_match_def)

lemma evaluate_counters_step:
  "corrupted_files st \<le> corrupted_files (stats_of (evaluate_video_acceptance m issues st))
   \<and> corrupted_files (stats_of (evaluate_video_acceptance m issues st)) \<le> corrupted_files st + 1
   \<and> low_resolution st \<le> low_resolution (stats_of (evaluate_video_acceptance m issues st))
   \<and> low_resolution (stats_of (evaluate_video_acceptance m issues st)) \<le> low_resolution st + 1
   \<and> too_dark st \<le> too_dark (stats_of (evaluate_video_acceptance m issues st))
   \<and> too_dark (stats_of (evaluate_video_acceptance m issues st)) \<le> too_dark st + 1
   \<and> too_bright st \<le> too_bright (stats_of (evaluate_video_acceptance m issues st))
   \<and> too_bright (stats_of (evaluate_video_acceptance m issues st)) \<le> too_bright st + 1
   \<and> blurry st \<le> blurry (stats_of (evaluate_video_acceptance m issues st))
   \<and> blurry (stats_of (evaluate_video_acceptance m issues st)) \<le> blurry st + 1
   \<and> insufficient_motion st
        \<le> insufficient_motion (stats_of (evaluate_video_acceptance m issues st))
   \<and> insufficient_motion (stats_of (evaluate_video_acceptance m issues st))
        \<le> insufficient_motion st + 1"
  by (simp add: evaluate_video_acceptance_def stats_of_def Let_def check_resolution_def
      check_brightness_def check_sharpness_def check_motion_def)

lemma process_file_within:
  assumes run: "process_file ops flags folder (st, any) fv = Some (st', any')"
    and w: "within_total st"
  shows "within_total st'"
proof -
  obtain fname v where fv: "fv = (fname, v)" by (cases fv)
  show ?thesis
  proof (cases "is_video_file fname")
    case False
    with run w show ?thesis by (simp add: process_file_def fv)
  next
    case True
    with run obtain r where
      r: "analyze_video_quality ops flags v NUM_SAMPLED_FRAMES FRAME_STRIDE folder = Some r"
      by (auto simp: process_file_def fv split: bind_splits)
    define st1 where "st1 = st\<lparr>total_videos := total_videos st + 1\<rparr>"
    define e where "e = stats_of (evaluate_video_acceptance (fst (fst r)) (snd (fst r)) st1)"
    have st': "st' = e\<lparr>accepted_videos := accepted_videos e + 1\<rparr>
                 \<or> st' = e\<lparr>rejected_videos := rejected_videos e + 1\<rparr>"
      using run True r by (auto simp: process_file_def fv Let_def st1_def e_def)
    have keep: "total_videos e = total_videos st + 1"
      "accepted_videos e = accepted_videos st"
      "rejected_videos e = rejected_videos st"
      using evaluate_keeps_totals [of "fst (fst r)" "snd (fst r)" st1]
      by (simp_all add: e_def st1_def)
    have step: "corrupted_files e \<le> corrupted_files st + 1" "corrupted_files st \<le> corrupted_files e"
      "low_resolution e \<le> low_resolution st + 1" "low_resolution st \<le> low_resolution e"
      "too_dark e \<le> too_dark st + 1" "too_dark st \<le> too_dark e"
      "too_bright e \<le> too_bright st + 1" "too_bright st \<le> too_bright e"
      "blurry e \<le> blurry st + 1" "blurry st \<le> blurry e"
      "insufficient_motion e \<le> insufficient_motion st + 1"
      "insufficient_motion st \<le> insufficient_motion e"
      using evaluate_counters_step [of st1 "fst (fst r)" "snd (fst r)"]
      by (simp_all add: e_def st1_def)
    have "within_total e"
      using w keep step unfolding within_total_def by linarith
    moreover have "accepted_videos e + 1 \<le> total_videos e" "rejected_videos e + 1 \<le> total_videos e"
      using w keep unfolding within_total_def by linarith+
    ultimately show ?thesis
      using st' unfolding within_total_def by auto
  qed
qed

lemma process_files_within:
  "process_files ops flags folder (st, any) files = Some (st', any')
     \<Longrightarrow> within_total st \<Longrightarrow> within_total st'"
proof (induction files arbitrary: st any)
  case Nil
  then show ?case by simp
next
  case (Cons fv files)
  from Cons.prems(1) obtain st1 any1 where
    1: "process_file ops flags folder (st, any) fv = Some (st1, any1)"
    and 2: "process_files ops flags folder (st1, any1) files = Some (st', any')"
    by (auto split: bind_splits)
  from process_file_within [OF 1 Cons.prems(2)] have "within_total st1" .
  from Cons.IH [OF 2 this] show ?case .
qed

lemma within_total_default: "within_total (default_stats name)"
  by (simp add: within_total_def default_stats_def)

lemma process_dir_within:
  assumes run: "process_dir ops flags (rows, t) d = Some (rows', t')"
    and w: "list_all within_total rows"
    and n: "sum_list (map total_videos rows) \<le> n"
  shows "list_all within_total rows'
       \<and> sum_list (map total_videos rows')
           \<le> n + int (length (filter (\<lambda>fv. is_video_file (fst fv)) (snd d)))"
proof -
  obtain folder files where d: "d = (folder, files)" by (cases d)
  from process_files_balanced [of ops flags folder "default_stats folder" False files]
  obtain st any where
    pf: "process_files ops flags folder (default_stats folder, False) files = Some (st, any)"
    and cnt: "total_videos st
        = total_videos (default_stats folder)
          + int (length (filter (\<lambda>fv. is_video_file (fst fv)) files))"
    by blast
  from process_files_within [OF pf within_total_default] have wst: "within_total st" .
  from cnt have cnt': "total_videos st = int (length (filter (\<lambda>fv. is_video_file (fst fv)) files))"
    by (simp add: default_stats_def)
  show ?thesis
  proof (cases "files = [] \<or> \<not> any")
    case True
    with run pf have "rows' = rows" by (auto simp: process_dir_def d split: if_splits)
    with w n show ?thesis by simp
  next
    case False
    with run pf have "rows' = rows @ [st]" by (auto simp: process_dir_def d split: if_splits)
    with w n wst cnt' show ?thesis by (simp add: d)
  qed
qed

lemma process_dirs_within:
  "process_dirs ops flags (rows, t) ds = Some (rows', t')
     \<Longrightarrow> list_all within_total rows \<Longrightarrow> sum_list (map total_videos rows) \<le> n
     \<Longrightarrow> list_all within_total rows'
         \<and> sum_list (map total_videos rows') \<le> n + video_count ds"
proof (induction ds arbitrary: rows t n)
  case Nil
  then show ?case by (simp add: video_count_def)
next
  case (Cons d ds)
  from Cons.prems(1) obtain rows1 t1 where
    1: "process_dir ops flags (rows, t) d = Some (rows1, t1)"
    and 2: "process_dirs ops flags (rows1, t1) ds = Some (rows', t')"
    by (auto split: bind_splits)
  from process_dir_within [OF 1 Cons.prems(2,3)]
  have w1: "list_all within_total rows1"
    and n1: "sum_list (map total_videos rows1)
           \<le> n + int (length (filter (\<lambda>fv. is_video_file (fst fv)) (snd d)))"
    by blast+
  from Cons.IH [OF 2 w1 n1] show ?case by (simp add: video_count_def)
qed

lemma sum_list_between:
  fixes f g :: "'a \<Rightarrow> int"
  assumes "\<forall>r\<in>set rows. 0 \<le> f r \<and> f r \<le> g r"
  shows "0 \<le> sum_list (map f rows) \<and> sum_list (map f rows) \<le> sum_list (map g rows)"
  using assms by (induction rows) auto

lemma sum_list_map_nonneg:
  fixes g :: "'a \<Rightarrow> int"
  shows "\<forall>r\<in>set rows. 0 \<le> g r \<Longrightarrow> 0 \<le> sum_list (map g rows)"
  by (induction rows) auto

lemma entry_le_sum_list:
  fixes g :: "'a \<Rightarrow> int"
  assumes "\<forall>r\<in>set rows. 0 \<le> g r" and "r \<in> set rows"
  shows "g r \<le> sum_list (map g rows)"
  using assms
proof (induction rows)
  case Nil
  then show ?case by simp
next
  case (Cons a rows)
  have "0 \<le> sum_list (map g rows)" using Cons.prems(1) by (simp add: sum_list_map_nonneg)
  with Cons show ?case by auto
qed

lemma within_columns_fit:
  assumes w: "list_all within_total rows"
    and b: "sum_list (map total_videos rows) < 2 ^ 63"
  shows "columns_fit rows"
proof -
  have W: "\<forall>r\<in>set rows. within_total r" using w by (simp add: list_all_iff)
  have tot: "\<forall>r\<in>set rows. 0 \<le> total_videos r"
    using W unfolding within_total_def by force
  have T: "0 \<le> sum_list (map total_videos rows)"
    using tot by (rule sum_list_map_nonneg)
  have le: "\<forall>r\<in>set rows. total_videos r \<le> sum_list (map total_videos rows)"
    using entry_le_sum_list [OF tot] by blast
  have 1: "0 \<le> sum_list (map accepted_videos rows)
           \<and> sum_list (map accepted_videos rows) \<le> sum_list (map total_videos rows)"
    by (rule sum_list_between) (use W in \<open>simp add: within_total_def\<close>)
  have 2: "0 \<le> sum_list (map rejected_videos rows)
           \<and> sum_list (map rejected_videos rows) \<le> sum_list (map total_videos rows)"
    by (rule sum_list_between) (use W in \<open>simp add: within_total_def\<close>)
  have 3: "0 \<le> sum_list (map corrupted_files rows)
           \<and> sum_list (map corrupted_files rows) \<le> sum_list (map total_videos rows)"
    by (rule sum_list_between) (use W in \<open>simp add: within_total_def\<close>)
  have 4: "0 \<le> sum_list (map low_resolution rows)
           \<and> sum_list (map low_resolution rows) \<le> sum_list (map total_videos rows)"
    by (rule sum_list_between) (use W in \<open>simp add: within_total_def\<close>)
  have 5: "0 \<le> sum_list (map too_dark rows)
           \<and> sum_list (map too_dark rows) \<le> sum_list (map total_videos rows)"
    by (rule sum_list_between) (use W in \<open>simp add: within_total_def\<close>)
  have 6: "0 \<le> sum_list (map too_bright rows)
           \<and> sum_list (map too_bright rows) \<le> sum_list (map total_videos rows)"
    by (rule sum_list_between) (use W in \<open>simp add: within_total_def\<close>)
  have 7: "0 \<le> sum_list (map blurry rows)
           \<and> sum_list (map blurry rows) \<le> sum_list (map total_videos rows)"
    by (rule sum_list_between) (use W in \<open>simp add: within_total_def\<close>)
  have 8: "0 \<le> sum_list (map insufficient_motion rows)
           \<and> sum_list (map insufficient_motion rows) \<le> sum_list (map total_videos rows)"
    by (rule sum_list_between) (use W in \<open>simp add: within_total_def\<close>)
  have rows_fit: "list_all row_fits rows"
    unfolding list_all_iff
  proof
    fix r assume r: "r \<in> set rows"
    from W r have wr: "within_total r" by blast
    from le r have "total_videos r \<le> sum_list (map total_videos rows)" by blast
    with b have "total_videos r < 2 ^ 63" by linarith
    with wr show "row_fits r"
      unfolding row_fits_def fits_int64_def within_total_def by linarith
  qed
  from rows_fit T b 1 2 3 4 5 6 7 8 show ?thesis
    unfolding columns_fit_def fits_int64_def by linarith
qed

lemma stats_eq_by_sums:
  fixes a b :: stats
  assumes "Exercise a = Exercise b" and "sums_match rows a" and "sums_match rows b"
  shows "a = b"
  using assms by (cases a, cases b) (simp add: sums_match_def)

lemma clean_dataset_report:
  "\<exists>overall totals report.
     clean_dataset ops flags walk = Some (overall, totals, report)
     \<and> report = generate_cleaning_report overall totals
     \<and> sums_match overall totals
     \<and> (video_count walk < 2 ^ 63 \<longrightarrow>
          columns_fit overall
          \<and> (overall \<noteq> [] \<longrightarrow>
                report = Some (overall @ [totals\<lparr>Exercise := ''TOTAL''\<rparr>])))"
proof -
  from process_dirs_inv [OF walk_inv_initial, of ops flags "''ALL_EXERCISES''" walk]
  obtain overall totals where
    run: "process_dirs ops flags ([], default_stats ''ALL_EXERCISES'') walk
            = Some (overall, totals)"
    and sums: "sums_match overall totals"
    by (auto simp: walk_inv_def)
  have cd: "clean_dataset ops flags walk
              = Some (overall, totals, generate_cleaning_report overall totals)"
    by (simp add: clean_dataset_def run)
  from process_dirs_within [OF run, of 0]
  have w: "list_all within_total overall"
    and n: "sum_list (map total_videos overall) \<le> video_count walk"
    by simp_all
  have "columns_fit overall
        \<and> (overall \<noteq> [] \<longrightarrow>
              generate_cleaning_report overall totals
                = Some (overall @ [totals\<lparr>Exercise := ''TOTAL''\<rparr>]))"
    if small: "video_count walk < 2 ^ 63"
  proof -
    from n small have "sum_list (map total_videos overall) < 2 ^ 63" by linarith
    from within_columns_fit [OF w this] have fit: "columns_fit overall" .
    have a: "sums_match overall (total_row overall)" by (rule total_row_exact [OF fit])
    have b: "sums_match overall (totals\<lparr>Exercise := ''TOTAL''\<rparr>)"
      using sums by (simp add: sums_match_def)
    have c: "Exercise (total_row overall) = Exercise (totals\<lparr>Exercise := ''TOTAL''\<rparr>)"
      by (simp add: total_row_def)
    from stats_eq_by_sums [OF c a b]
    have "total_row overall = totals\<lparr>Exercise := ''TOTAL''\<rparr>" .
    with fit show ?thesis by (simp add: generate_cleaning_report_def)
  qed
  with cd sums show ?thesis by blast
qed

text \<open>
  C8, amended. For every list of per-category rows whose counters and whose nine column
  sums fit a signed 64-bit integer, the data frame the report produces is the rows
  followed by one row named \<^verbatim>\<open>TOTAL\<close> that holds, in each of the nine counter fields, the
  sum of that field over the rows. The global totals that \<^verbatim>\<open>clean_dataset\<close> accumulates
  directory by directory, and hands to the report, equal the same sums over
  \<^verbatim>\<open>overall_exercise_stats\<close> in every run, and the run returns. In a run over fewer than
  \<open>2\<^sup>6\<^sup>3\<close> video files the rows fit, and the \<^verbatim>\<open>TOTAL\<close> row of the report is the accumulated
  totals.
\<close>

theorem total_row_is_column_sum:
  assumes "generate_cleaning_report rows totals0 = Some df"
    and "columns_fit rows"
  shows "df = rows @ [last df]
     \<and> Exercise (last df) = ''TOTAL''
     \<and> sums_match rows (last df)
     \<and> (\<exists>overall totals report.
           clean_dataset ops flags walk = Some (overall, totals, report)
         \<and> report = generate_cleaning_report overall totals
         \<and> sums_match overall totals
         \<and> (video_count walk < 2 ^ 63 \<longrightarrow>
              columns_fit overall
              \<and> (overall \<noteq> [] \<longrightarrow>
                    report = Some (overall @ [totals\<lparr>Exercise := ''TOTAL''\<rparr>]))))"
proof -
  from assms(1) have df: "df = rows @ [total_row rows]"
    by (simp add: generate_cleaning_report_def split: if_splits)
  have a: "df = rows @ [last df]" by (simp add: df)
  have b: "Exercise (last df) = ''TOTAL''" by (simp add: df total_row_def)
  have c: "sums_match rows (last df)" using total_row_exact [OF assms(2)] by (simp add: df)
  from a b c clean_dataset_report [of ops flags walk] show ?thesis by blast
qed

text \<open>The rows of the two categories of the example walk, and the run over that walk.\<close>

theorem total_row_is_column_sum_witness:
  "generate_cleaning_report demo_rows (default_stats ''ALL_EXERCISES'') = Some demo_df
   \<and> columns_fit demo_rows
   \<and> demo_df = demo_rows @ [last demo_df]
   \<and> Exercise (last demo_df) = ''TOTAL''
   \<and> sums_match demo_rows (last demo_df)
   \<and> total_videos (last demo_df) = 3
   \<and> video_count demo_walk = 3
   \<and> clean_dataset demo_ops demo_flags demo_walk = Some (demo_rows, demo_totals, Some demo_df)
   \<and> (\<exists>overall totals report.
           clean_dataset demo_ops demo_flags demo_walk = Some (overall, totals, report)
         \<and> report = generate_cleaning_report overall totals
         \<and> sums_match overall totals
         \<and> (video_count demo_walk < 2 ^ 63 \<longrightarrow>
              columns_fit overall
              \<and> (overall \<noteq> [] \<longrightarrow>
                    report = Some (overall @ [totals\<lparr>Exercise := ''TOTAL''\<rparr>]))))"
proof -
  have h: "generate_cleaning_report demo_rows (default_stats ''ALL_EXERCISES'') = Some demo_df"
    by (simp add: generate_cleaning_report_def demo_rows_def demo_df_def total_row_def
        column_sum_def int64_wrap_def)
  have f: "columns_fit demo_rows"
    by (simp add: columns_fit_def row_fits_def fits_int64_def demo_rows_def)
  have t: "total_videos (last demo_df) = 3" by (simp add: demo_df_def)
  have n: "video_count demo_walk = 3" by code_simp
  have run: "clean_dataset demo_ops demo_flags demo_walk
               = Some (demo_rows, demo_totals, Some demo_df)"
    by code_simp
  from total_row_is_column_sum [OF h f, of demo_ops demo_flags demo_walk] h f t n run
  show ?thesis by blast
qed

end
